theory Spec2Isabelle
  imports Complex_Main "HOL-Library.Word"
begin

section \<open>Nearest sampling of \<^verbatim>\<open>BLI_math_interp.hh\<close>: the embedding\<close>

text \<open>
  The header samples a row-major pixel buffer through raw pointers: it reads texels
  through \<^verbatim>\<open>const T *buffer\<close> and writes the sample through \<^verbatim>\<open>T *output\<close>. The model
  keeps both in one memory, so that what a sampler reads, what it writes and what it
  leaves alone are statements about that memory.

  \<^item> A \<^verbatim>\<open>float\<close> is modelled by the real number it denotes. Only finite values are
    covered (the header's callers must not pass NaN or infinities). Single-precision
    arithmetic rounds: every float operation of the model rounds its exact result to
    the nearest binary32 value, ties to even, and a result beyond the largest float
    is a fault.
  \<^item> A \<^verbatim>\<open>uchar\<close> is an 8-bit word.
  \<^item> An \<^verbatim>\<open>int\<close> is an integer; the one place where a value can leave the 32-bit range,
    the conversion \<^verbatim>\<open>int(u)\<close> of a float, checks the range. Texel offsets are computed
    in \<^verbatim>\<open>int64_t\<close> by the source and are modelled without a bound.
\<close>

type_synonym uchar = "8 word"
type_synonym float = real

datatype 'a vec4 = Vec4 'a 'a 'a 'a

type_synonym uchar4 = "uchar vec4"
type_synonym float4 = "float vec4"

text \<open>The texture coordinate wrapping mode of the header.\<close>

datatype InterpWrapMode = Extend | Repeat | Border

subsection \<open>Faults\<close>

text \<open>
  What C++ leaves undefined, and what a debug build aborts on, is a fault of the model:
  a failed \<^verbatim>\<open>BLI_assert\<close>, a float to int conversion whose truncated value is not an
  \<^verbatim>\<open>int\<close>, a float division by zero (whose result is not a finite float), an access
  outside an allocated array and the read of a cell that was never written.
\<close>

datatype fault =
    Assertion_Failed
  | Undefined_Conversion
  | Not_Finite
  | Invalid_Access
  | Indeterminate_Read

definition and_then :: "fault + 'a \<Rightarrow> ('a \<Rightarrow> fault + 'b) \<Rightarrow> fault + 'b" where
  "and_then r f = (case r of Inl e \<Rightarrow> Inl e | Inr x \<Rightarrow> f x)"

subsection \<open>Memory and pointers\<close>

text \<open>
  Memory is a list of arrays (blocks); a cell holds a value or is indeterminate
  (\<open>None\<close>: allocated, never written). A pointer is null or names a block and an
  element offset into it, so \<^verbatim>\<open>p + k\<close> moves the offset and \<^verbatim>\<open>p[i]\<close> is the cell at
  offset \<open>off + i\<close> of the block.
\<close>

type_synonym 'a block = "'a option list"
type_synonym 'a memory = "'a block list"

datatype ptr = Null | Ptr nat int

definition ptr_add :: "ptr \<Rightarrow> int \<Rightarrow> ptr" where
  "ptr_add p k = (case p of Null \<Rightarrow> Null | Ptr b off \<Rightarrow> Ptr b (off + k))"

definition valid_cell :: "'a memory \<Rightarrow> ptr \<Rightarrow> int \<Rightarrow> bool" where
  "valid_cell m p i =
     (case p of
        Null \<Rightarrow> False
      | Ptr b off \<Rightarrow> b < length m \<and> 0 \<le> off + i \<and> off + i < int (length (m ! b)))"

text \<open>The cell \<^verbatim>\<open>p[i]\<close> names, the block a pointer points into, and whether that block exists.\<close>

definition cell :: "ptr \<Rightarrow> int \<Rightarrow> (nat \<times> int) option" where
  "cell p i = (case p of Null \<Rightarrow> None | Ptr b off \<Rightarrow> Some (b, off + i))"

definition block_of :: "ptr \<Rightarrow> nat option" where
  "block_of p = (case p of Null \<Rightarrow> None | Ptr b off \<Rightarrow> Some b)"

definition allocated :: "'a memory \<Rightarrow> ptr \<Rightarrow> bool" where
  "allocated m p = (case p of Null \<Rightarrow> False | Ptr b off \<Rightarrow> b < length m)"

definition peek :: "'a memory \<Rightarrow> ptr \<Rightarrow> int \<Rightarrow> 'a option" where
  "peek m p i = (case p of Null \<Rightarrow> None | Ptr b off \<Rightarrow> m ! b ! nat (off + i))"

definition poke :: "'a memory \<Rightarrow> ptr \<Rightarrow> int \<Rightarrow> 'a \<Rightarrow> 'a memory" where
  "poke m p i x =
     (case p of Null \<Rightarrow> m | Ptr b off \<Rightarrow> m[b := (m ! b)[nat (off + i) := Some x]])"

text \<open>The read \<^verbatim>\<open>p[i]\<close> and the write \<^verbatim>\<open>p[i] = x\<close>.\<close>

definition load :: "'a memory \<Rightarrow> ptr \<Rightarrow> int \<Rightarrow> fault + 'a" where
  "load m p i =
     (if valid_cell m p i
      then (case peek m p i of None \<Rightarrow> Inl Indeterminate_Read | Some x \<Rightarrow> Inr x)
      else Inl Invalid_Access)"

definition store :: "'a memory \<Rightarrow> ptr \<Rightarrow> int \<Rightarrow> 'a \<Rightarrow> fault + 'a memory" where
  "store m p i x = (if valid_cell m p i then Inr (poke m p i x) else Inl Invalid_Access)"

text \<open>The assignment \<^verbatim>\<open>output[i] = data[j]\<close>: the read, then the write.\<close>

definition assign :: "'a memory \<Rightarrow> ptr \<Rightarrow> int \<Rightarrow> ptr \<Rightarrow> int \<Rightarrow> fault + 'a memory" where
  "assign m output i data j = and_then (load m data j) (\<lambda>x. store m output i x)"

text \<open>
  A local \<^verbatim>\<open>uchar4 res\<close> or \<^verbatim>\<open>float4 res\<close>: a fresh block of indeterminate cells, and
  the value the function returns from it.
\<close>

definition alloca :: "'a memory \<Rightarrow> nat \<Rightarrow> 'a memory \<times> ptr" where
  "alloca m n = (m @ [replicate n None], Ptr (length m) 0)"

definition read4 :: "'a memory \<Rightarrow> ptr \<Rightarrow> fault + 'a vec4" where
  "read4 m p =
     and_then (load m p 0) (\<lambda>a.
     and_then (load m p 1) (\<lambda>b.
     and_then (load m p 2) (\<lambda>c.
     and_then (load m p 3) (\<lambda>d. Inr (Vec4 a b c d)))))"

subsection \<open>Conversions and helpers of the math headers\<close>

definition INT_MIN :: int where
  "INT_MIN = - (2 ^ 31)"

definition INT_MAX :: int where
  "INT_MAX = 2 ^ 31 - 1"

text \<open>
  \<^verbatim>\<open>int(u)\<close>: the fractional part is discarded (truncation towards zero); the
  behaviour is undefined when the truncated value is not an \<^verbatim>\<open>int\<close>.
\<close>

definition truncate :: "float \<Rightarrow> int" where
  "truncate u = (if u < 0 then \<lceil>u\<rceil> else \<lfloor>u\<rfloor>)"

definition in_int_range :: "float \<Rightarrow> bool" where
  "in_int_range u = (INT_MIN \<le> truncate u \<and> truncate u \<le> INT_MAX)"

definition int_of_float :: "float \<Rightarrow> fault + int" where
  "int_of_float u = (if in_int_range u then Inr (truncate u) else Inl Undefined_Conversion)"

text \<open>
  Modelled from the spec: \<^verbatim>\<open>math::clamp\<close> of \<^verbatim>\<open>BLI_math_base.hh\<close> is not among the
  sources. The spec's \<open>clamp(x, 0, extent-1)\<close> is the usual clamp of a value into
  the closed range from \<open>lo\<close> to \<open>hi\<close>.
\<close>

definition clamp :: "int \<Rightarrow> int \<Rightarrow> int \<Rightarrow> int" where
  "clamp a lo hi = (if a < lo then lo else if hi < a then hi else a)"

subsection \<open>Single-precision arithmetic\<close>

text \<open>
  A binary32 value is \<open>m * 2 ^ e\<close> with \<open>\<bar>m\<bar> < 2 ^ 24\<close> and \<open>-149 \<le> e \<le> 104\<close>. The
  exponent of the binade of a real \<open>x\<close> is the \<open>e\<close> with \<open>2 ^ e \<le> \<bar>x\<bar> < 2 ^ (e + 1)\<close>, kept
  between \<open>-126\<close> (where the subnormal numbers begin) and \<open>127\<close>; it is found by
  doubling or halving \<open>\<bar>x\<bar>\<close>.
\<close>

definition pow2 :: "int \<Rightarrow> real" where
  "pow2 e = (if 0 \<le> e then 2 ^ nat e else 1 / 2 ^ nat (- e))"

function exponent_down :: "real \<Rightarrow> int \<Rightarrow> int" where
  "exponent_down a e = (if 1 \<le> a \<or> e \<le> - 126 then e else exponent_down (2 * a) (e - 1))"
  by pat_completeness auto
termination
  by (relation "measure (\<lambda>(a, e). nat (e + 126))") auto

function exponent_up :: "real \<Rightarrow> int \<Rightarrow> int" where
  "exponent_up a e = (if a < 2 \<or> 127 \<le> e then e else exponent_up (a / 2) (e + 1))"
  by pat_completeness auto
termination
  by (relation "measure (\<lambda>(a, e). nat (127 - e))") auto

declare exponent_down.simps [simp del]
declare exponent_up.simps [simp del]

definition float_exponent :: "real \<Rightarrow> int" where
  "float_exponent x = (if \<bar>x\<bar> < 1 then exponent_down \<bar>x\<bar> 0 else exponent_up \<bar>x\<bar> 0)"

text \<open>Rounding to the nearest integer, ties to the even one.\<close>

definition round_half_even :: "real \<Rightarrow> int" where
  "round_half_even r =
     (if r - of_int \<lfloor>r\<rfloor> < 1 / 2 then \<lfloor>r\<rfloor>
      else if 1 / 2 < r - of_int \<lfloor>r\<rfloor> then \<lfloor>r\<rfloor> + 1
      else if even \<lfloor>r\<rfloor> then \<lfloor>r\<rfloor> else \<lfloor>r\<rfloor> + 1)"

text \<open>
  The binary32 value nearest to a real: the multiple of the binade's unit in the last
  place (\<open>2 ^ (e - 23)\<close>) nearest to it. A result of magnitude \<open>2 ^ 128\<close> or more is an
  infinity, which the model does not represent.
\<close>

definition round_binary32 :: "real \<Rightarrow> fault + float" where
  "round_binary32 x =
     (let ulp = pow2 (float_exponent x - 23);
          r = of_int (round_half_even (x / ulp)) * ulp
      in if \<bar>r\<bar> < pow2 128 then Inr r else Inl Not_Finite)"

definition is_binary32 :: "real \<Rightarrow> bool" where
  "is_binary32 x = (round_binary32 x = Inr x)"

text \<open>
  The float operations the samplers and their helper use: \<^verbatim>\<open>a / b\<close>, \<^verbatim>\<open>a * b\<close>,
  \<^verbatim>\<open>a - b\<close>, \<^verbatim>\<open>floorf(a)\<close> (exact: the floor of a float is a float) and the
  conversion \<^verbatim>\<open>float(n)\<close> of an \<^verbatim>\<open>int\<close>. A division by zero gives an infinity or a
  NaN.
\<close>

definition float_div :: "float \<Rightarrow> float \<Rightarrow> fault + float" where
  "float_div a b = (if b = 0 then Inl Not_Finite else round_binary32 (a / b))"

definition float_mul :: "float \<Rightarrow> float \<Rightarrow> fault + float" where
  "float_mul a b = round_binary32 (a * b)"

definition float_sub :: "float \<Rightarrow> float \<Rightarrow> fault + float" where
  "float_sub a b = round_binary32 (a - b)"

definition floorf :: "float \<Rightarrow> float" where
  "floorf a = of_int \<lfloor>a\<rfloor>"

definition float_of_int :: "int \<Rightarrow> fault + float" where
  "float_of_int n = round_binary32 (of_int n)"

text \<open>
  Modelled from the spec: \<^verbatim>\<open>floored_fmod\<close> of \<^verbatim>\<open>BLI_math_base.h\<close> is not among the
  sources. The spec calls it the floored modulo of the coordinate by the extent,
  floor-based and not truncating, undefined for a zero divisor: the float expression
  \<^verbatim>\<open>f - n * floorf(f / n)\<close>, each of whose three operations rounds to single
  precision.
\<close>

definition floored_fmod :: "float \<Rightarrow> float \<Rightarrow> fault + float" where
  "floored_fmod f n =
     and_then (float_div f n) (\<lambda>q.
     and_then (float_mul n (floorf q)) (\<lambda>p.
     float_sub f p))"

subsection \<open>Statement blocks the samplers share\<close>

text \<open>
  The byte samplers copy the four channels of a texel with four assignments,
  \<^verbatim>\<open>output[0] = data[0]; ... output[3] = data[3];\<close>
\<close>

definition copy4 :: "'a memory \<Rightarrow> ptr \<Rightarrow> ptr \<Rightarrow> fault + 'a memory" where
  "copy4 m output data =
     and_then (assign m output 0 data 0) (\<lambda>m.
     and_then (assign m output 1 data 1) (\<lambda>m.
     and_then (assign m output 2 data 2) (\<lambda>m.
     assign m output 3 data 3)))"

text \<open>
  \<^verbatim>\<open>output[0] = output[1] = output[2] = output[3] = 0;\<close> assigns from the right.
\<close>

definition zero4 :: "'a::zero memory \<Rightarrow> ptr \<Rightarrow> fault + 'a memory" where
  "zero4 m output =
     and_then (store m output 3 0) (\<lambda>m.
     and_then (store m output 2 0) (\<lambda>m.
     and_then (store m output 1 0) (\<lambda>m.
     store m output 0 0)))"

text \<open>
  The float samplers loop over the channels:
  \<^verbatim>\<open>for (int i = 0; i < components; i++) { output[i] = data[i]; }\<close> and
  \<^verbatim>\<open>for (int i = 0; i < components; i++) { output[i] = 0.0f; }\<close>, entered at \<open>i = 0\<close>.
\<close>

function copy_components ::
  "'a memory \<Rightarrow> ptr \<Rightarrow> ptr \<Rightarrow> int \<Rightarrow> int \<Rightarrow> fault + 'a memory" where
  "copy_components m output data i components =
     (if i < components
      then (case assign m output i data i of
              Inl e \<Rightarrow> Inl e
            | Inr m' \<Rightarrow> copy_components m' output data (i + 1) components)
      else Inr m)"
  by pat_completeness auto
termination
  by (relation "measure (\<lambda>(m, output, data, i, components). nat (components - i))") auto

function zero_components ::
  "'a::zero memory \<Rightarrow> ptr \<Rightarrow> int \<Rightarrow> int \<Rightarrow> fault + 'a memory" where
  "zero_components m output i components =
     (if i < components
      then (case store m output i 0 of
              Inl e \<Rightarrow> Inl e
            | Inr m' \<Rightarrow> zero_components m' output (i + 1) components)
      else Inr m)"
  by pat_completeness auto
termination
  by (relation "measure (\<lambda>(m, output, i, components). nat (components - i))") auto

declare copy_components.simps [simp del]
declare zero_components.simps [simp del]

subsection \<open>Nearest sampling with a black border\<close>

definition interpolate_nearest_border_byte ::
  "uchar memory \<Rightarrow> ptr \<Rightarrow> ptr \<Rightarrow> int \<Rightarrow> int \<Rightarrow> float \<Rightarrow> float \<Rightarrow> fault + uchar memory" where
  "interpolate_nearest_border_byte m buffer output width height u v =
     (if buffer = Null then Inl Assertion_Failed
      else
        and_then (int_of_float u) (\<lambda>x.
        and_then (int_of_float v) (\<lambda>y.
          if x < 0 \<or> x \<ge> width \<or> y < 0 \<or> y \<ge> height
          then zero4 m output
          else copy4 m output (ptr_add buffer ((width * y + x) * 4)))))"

definition interpolate_nearest_border_byte_uchar4 ::
  "uchar memory \<Rightarrow> ptr \<Rightarrow> int \<Rightarrow> int \<Rightarrow> float \<Rightarrow> float \<Rightarrow> fault + uchar4" where
  "interpolate_nearest_border_byte_uchar4 m buffer width height u v =
     (case alloca m 4 of
        (m1, res) \<Rightarrow>
          and_then (interpolate_nearest_border_byte m1 buffer res width height u v)
            (\<lambda>m2. read4 m2 res))"

definition interpolate_nearest_border_fl ::
  "float memory \<Rightarrow> ptr \<Rightarrow> ptr \<Rightarrow> int \<Rightarrow> int \<Rightarrow> int \<Rightarrow> float \<Rightarrow> float \<Rightarrow> fault + float memory" where
  "interpolate_nearest_border_fl m buffer output width height components u v =
     (if buffer = Null then Inl Assertion_Failed
      else
        and_then (int_of_float u) (\<lambda>x.
        and_then (int_of_float v) (\<lambda>y.
          if x < 0 \<or> x \<ge> width \<or> y < 0 \<or> y \<ge> height
          then zero_components m output 0 components
          else copy_components m output
                 (ptr_add buffer ((width * y + x) * components)) 0 components)))"

definition interpolate_nearest_border_fl_float4 ::
  "float memory \<Rightarrow> ptr \<Rightarrow> int \<Rightarrow> int \<Rightarrow> float \<Rightarrow> float \<Rightarrow> fault + float4" where
  "interpolate_nearest_border_fl_float4 m buffer width height u v =
     (case alloca m 4 of
        (m1, res) \<Rightarrow>
          and_then (interpolate_nearest_border_fl m1 buffer res width height 4 u v)
            (\<lambda>m2. read4 m2 res))"

subsection \<open>Nearest sampling, clamped to the edge\<close>

definition interpolate_nearest_byte ::
  "uchar memory \<Rightarrow> ptr \<Rightarrow> ptr \<Rightarrow> int \<Rightarrow> int \<Rightarrow> float \<Rightarrow> float \<Rightarrow> fault + uchar memory" where
  "interpolate_nearest_byte m buffer output width height u v =
     (if buffer = Null then Inl Assertion_Failed
      else
        and_then (int_of_float u) (\<lambda>iu. let x = clamp iu 0 (width - 1) in
        and_then (int_of_float v) (\<lambda>iv. let y = clamp iv 0 (height - 1) in
          copy4 m output (ptr_add buffer ((width * y + x) * 4)))))"

definition interpolate_nearest_byte_uchar4 ::
  "uchar memory \<Rightarrow> ptr \<Rightarrow> int \<Rightarrow> int \<Rightarrow> float \<Rightarrow> float \<Rightarrow> fault + uchar4" where
  "interpolate_nearest_byte_uchar4 m buffer width height u v =
     (case alloca m 4 of
        (m1, res) \<Rightarrow>
          and_then (interpolate_nearest_byte m1 buffer res width height u v)
            (\<lambda>m2. read4 m2 res))"

definition interpolate_nearest_fl ::
  "float memory \<Rightarrow> ptr \<Rightarrow> ptr \<Rightarrow> int \<Rightarrow> int \<Rightarrow> int \<Rightarrow> float \<Rightarrow> float \<Rightarrow> fault + float memory" where
  "interpolate_nearest_fl m buffer output width height components u v =
     (if buffer = Null then Inl Assertion_Failed
      else
        and_then (int_of_float u) (\<lambda>iu. let x = clamp iu 0 (width - 1) in
        and_then (int_of_float v) (\<lambda>iv. let y = clamp iv 0 (height - 1) in
          copy_components m output
            (ptr_add buffer ((width * y + x) * components)) 0 components)))"

definition interpolate_nearest_fl_float4 ::
  "float memory \<Rightarrow> ptr \<Rightarrow> int \<Rightarrow> int \<Rightarrow> float \<Rightarrow> float \<Rightarrow> fault + float4" where
  "interpolate_nearest_fl_float4 m buffer width height u v =
     (case alloca m 4 of
        (m1, res) \<Rightarrow>
          and_then (interpolate_nearest_fl m1 buffer res width height 4 u v)
            (\<lambda>m2. read4 m2 res))"

subsection \<open>Wrapped nearest sampling\<close>

definition interpolate_nearest_wrap_byte ::
  "uchar memory \<Rightarrow> ptr \<Rightarrow> ptr \<Rightarrow> int \<Rightarrow> int \<Rightarrow> float \<Rightarrow> float \<Rightarrow> fault + uchar memory" where
  "interpolate_nearest_wrap_byte m buffer output width height u v =
     (if buffer = Null then Inl Assertion_Failed
      else
        and_then (float_of_int width) (\<lambda>w.
        and_then (floored_fmod u w) (\<lambda>u.
        and_then (float_of_int height) (\<lambda>h.
        and_then (floored_fmod v h) (\<lambda>v.
        and_then (int_of_float u) (\<lambda>x.
        and_then (int_of_float v) (\<lambda>y.
          if x \<ge> 0 \<and> y \<ge> 0 \<and> x < width \<and> y < height
          then copy4 m output (ptr_add buffer ((width * y + x) * 4))
          else Inl Assertion_Failed)))))))"

definition interpolate_nearest_wrap_byte_uchar4 ::
  "uchar memory \<Rightarrow> ptr \<Rightarrow> int \<Rightarrow> int \<Rightarrow> float \<Rightarrow> float \<Rightarrow> fault + uchar4" where
  "interpolate_nearest_wrap_byte_uchar4 m buffer width height u v =
     (case alloca m 4 of
        (m1, res) \<Rightarrow>
          and_then (interpolate_nearest_wrap_byte m1 buffer res width height u v)
            (\<lambda>m2. read4 m2 res))"

definition interpolate_nearest_wrap_fl ::
  "float memory \<Rightarrow> ptr \<Rightarrow> ptr \<Rightarrow> int \<Rightarrow> int \<Rightarrow> int \<Rightarrow> float \<Rightarrow> float \<Rightarrow> fault + float memory" where
  "interpolate_nearest_wrap_fl m buffer output width height components u v =
     (if buffer = Null then Inl Assertion_Failed
      else
        and_then (float_of_int width) (\<lambda>w.
        and_then (floored_fmod u w) (\<lambda>u.
        and_then (float_of_int height) (\<lambda>h.
        and_then (floored_fmod v h) (\<lambda>v.
        and_then (int_of_float u) (\<lambda>x.
        and_then (int_of_float v) (\<lambda>y.
          if x \<ge> 0 \<and> y \<ge> 0 \<and> x < width \<and> y < height
          then copy_components m output
                 (ptr_add buffer ((width * y + x) * components)) 0 components
          else Inl Assertion_Failed)))))))"

definition interpolate_nearest_wrap_fl_float4 ::
  "float memory \<Rightarrow> ptr \<Rightarrow> int \<Rightarrow> int \<Rightarrow> float \<Rightarrow> float \<Rightarrow> fault + float4" where
  "interpolate_nearest_wrap_fl_float4 m buffer width height u v =
     (case alloca m 4 of
        (m1, res) \<Rightarrow>
          and_then (interpolate_nearest_wrap_fl m1 buffer res width height 4 u v)
            (\<lambda>m2. read4 m2 res))"


section \<open>Vocabulary of the statements\<close>

text \<open>
  The address \<^verbatim>\<open>buffer + (int64_t(width) * y + x) * components\<close> of the texel at
  column \<open>x\<close> and row \<open>y\<close>.
\<close>

definition texel_ptr :: "ptr \<Rightarrow> int \<Rightarrow> int \<Rightarrow> int \<Rightarrow> int \<Rightarrow> ptr" where
  "texel_ptr buffer width components x y = ptr_add buffer ((width * y + x) * components)"


definition writable :: "'a memory \<Rightarrow> ptr \<Rightarrow> int \<Rightarrow> bool" where
  "writable m p n = (\<forall>k \<in> set [0..n - 1]. valid_cell m p k)"

text \<open>
  The channels \<open>data[i], ..., data[components - 1]\<close> as one read, and the write of a
  list of channels to \<open>output[i], output[i + 1], ...\<close>: what the copy loop does when
  the output does not overlap the texel.
\<close>

function load_range :: "'a memory \<Rightarrow> ptr \<Rightarrow> int \<Rightarrow> int \<Rightarrow> fault + 'a list" where
  "load_range m data i components =
     (if i < components
      then (case load m data i of
              Inl e \<Rightarrow> Inl e
            | Inr x \<Rightarrow>
                (case load_range m data (i + 1) components of
                   Inl e \<Rightarrow> Inl e
                 | Inr xs \<Rightarrow> Inr (x # xs)))
      else Inr [])"
  by pat_completeness auto
termination
  by (relation "measure (\<lambda>(m, data, i, components). nat (components - i))") auto

declare load_range.simps [simp del]

fun write_range :: "'a memory \<Rightarrow> ptr \<Rightarrow> int \<Rightarrow> 'a list \<Rightarrow> 'a memory" where
  "write_range m output i [] = m"
| "write_range m output i (x # xs) = write_range (poke m output i x) output (i + 1) xs"

fun vec4_of_list :: "'a list \<Rightarrow> fault + 'a vec4" where
  "vec4_of_list [a, b, c, d] = Inr (Vec4 a b c d)"
| "vec4_of_list xs = Inl Invalid_Access"

text \<open>
  The three entry points of each pixel format, by boundary policy, so that a property
  of all three is one statement.
\<close>

definition nearest_byte ::
  "InterpWrapMode \<Rightarrow> uchar memory \<Rightarrow> ptr \<Rightarrow> ptr \<Rightarrow> int \<Rightarrow> int \<Rightarrow> float \<Rightarrow> float
   \<Rightarrow> fault + uchar memory" where
  "nearest_byte mode =
     (case mode of
        Extend \<Rightarrow> interpolate_nearest_byte
      | Repeat \<Rightarrow> interpolate_nearest_wrap_byte
      | Border \<Rightarrow> interpolate_nearest_border_byte)"

definition nearest_fl ::
  "InterpWrapMode \<Rightarrow> float memory \<Rightarrow> ptr \<Rightarrow> ptr \<Rightarrow> int \<Rightarrow> int \<Rightarrow> int \<Rightarrow> float \<Rightarrow> float
   \<Rightarrow> fault + float memory" where
  "nearest_fl mode =
     (case mode of
        Extend \<Rightarrow> interpolate_nearest_fl
      | Repeat \<Rightarrow> interpolate_nearest_wrap_fl
      | Border \<Rightarrow> interpolate_nearest_border_fl)"

definition nearest_byte_uchar4 ::
  "InterpWrapMode \<Rightarrow> uchar memory \<Rightarrow> ptr \<Rightarrow> int \<Rightarrow> int \<Rightarrow> float \<Rightarrow> float \<Rightarrow> fault + uchar4" where
  "nearest_byte_uchar4 mode =
     (case mode of
        Extend \<Rightarrow> interpolate_nearest_byte_uchar4
      | Repeat \<Rightarrow> interpolate_nearest_wrap_byte_uchar4
      | Border \<Rightarrow> interpolate_nearest_border_byte_uchar4)"

definition nearest_fl_float4 ::
  "InterpWrapMode \<Rightarrow> float memory \<Rightarrow> ptr \<Rightarrow> int \<Rightarrow> int \<Rightarrow> float \<Rightarrow> float \<Rightarrow> fault + float4" where
  "nearest_fl_float4 mode =
     (case mode of
        Extend \<Rightarrow> interpolate_nearest_fl_float4
      | Repeat \<Rightarrow> interpolate_nearest_wrap_fl_float4
      | Border \<Rightarrow> interpolate_nearest_border_fl_float4)"

section \<open>Basic facts\<close>

lemma and_then_simps [simp]:
  "and_then (Inl e) f = Inl e"
  "and_then (Inr x) f = f x"
  by (simp_all add: and_then_def)

subsection \<open>Memory\<close>

lemma length_poke [simp]: "length (poke m p i x) = length m"
  by (simp add: poke_def split: ptr.splits)

lemma length_block_poke: "length (poke m p i x ! b) = length (m ! b)"
proof (cases p)
  case Null
  then show ?thesis by (simp add: poke_def)
next
  case (Ptr b' off)
  consider "b' \<noteq> b" | "b' = b" "b < length m" | "b' = b" "\<not> b < length m"
    by blast
  then show ?thesis
    by cases (simp_all add: poke_def Ptr list_update_beyond)
qed

lemma valid_cell_poke [simp]: "valid_cell (poke m p i x) q j = valid_cell m q j"
  by (simp add: valid_cell_def length_block_poke split: ptr.splits)

lemma load_poke:
  assumes v: "valid_cell m p i"
  shows "load (poke m p i x) q j = (if cell q j = cell p i then Inr x else load m q j)"
proof (cases p)
  case Null
  with v show ?thesis by (simp add: valid_cell_def)
next
  case p: (Ptr b off)
  show ?thesis
  proof (cases q)
    case Null
    then show ?thesis by (simp add: load_def valid_cell_def cell_def p)
  next
    case q: (Ptr b' off')
    show ?thesis
    proof (cases "b' = b")
      case True
      then show ?thesis
        using v
        by (auto simp: load_def valid_cell_def peek_def poke_def cell_def p q nth_list_update)
    next
      case False
      then show ?thesis
        using v by (auto simp: load_def valid_cell_def peek_def poke_def cell_def p q)
    qed
  qed
qed

lemma store_Inr: "store m p i x = Inr m' \<longleftrightarrow> valid_cell m p i \<and> m' = poke m p i x"
  by (auto simp: store_def)

lemma store_valid [simp]: "valid_cell m p i \<Longrightarrow> store m p i x = Inr (poke m p i x)"
  by (simp add: store_def)

lemma assign_Inr:
  "assign m output i data j = Inr m' \<longleftrightarrow>
     (\<exists>x. load m data j = Inr x \<and> valid_cell m output i \<and> m' = poke m output i x)"
  by (cases "load m data j") (auto simp: assign_def store_Inr)

lemma cell_inj: "valid_cell m p i \<Longrightarrow> cell p i = cell p k \<longleftrightarrow> i = k"
  by (auto simp: cell_def valid_cell_def split: ptr.splits)

lemma copy_components_frame:
  "copy_components m out data i c = Inr m' \<Longrightarrow>
   (\<forall>k. i \<le> k \<and> k < c \<longrightarrow> cell q j \<noteq> cell out k) \<Longrightarrow>
   load m' q j = load m q j"
proof (induction m out data i c rule: copy_components.induct)
  case (1 m out data i c)
  show ?case
  proof (cases "i < c")
    case True
    with "1.prems"(1) obtain m1 where
      a: "assign m out i data i = Inr m1" and
      r: "copy_components m1 out data (i + 1) c = Inr m'"
      by (subst (asm) copy_components.simps) (auto split: sum.splits)
    from a obtain x where v: "valid_cell m out i" and m1: "m1 = poke m out i x"
      by (auto simp: assign_Inr)
    have "load m' q j = load m1 q j"
      using "1.IH" [OF True a r] "1.prems"(2) by simp
    also have "\<dots> = load m q j"
      using "1.prems"(2) True v by (simp add: m1 load_poke)
    finally show ?thesis .
  next
    case False
    with "1.prems"(1) show ?thesis
      by (subst (asm) copy_components.simps) simp
  qed
qed

lemma copy_components_valid:
  "copy_components m out data i c = Inr m' \<Longrightarrow> valid_cell m' q j = valid_cell m q j"
proof (induction m out data i c rule: copy_components.induct)
  case (1 m out data i c)
  show ?case
  proof (cases "i < c")
    case True
    with "1.prems"(1) obtain m1 where
      a: "assign m out i data i = Inr m1" and
      r: "copy_components m1 out data (i + 1) c = Inr m'"
      by (subst (asm) copy_components.simps) (auto split: sum.splits)
    from a obtain x where m1: "m1 = poke m out i x"
      by (auto simp: assign_Inr)
    show ?thesis
      using "1.IH" [OF True a r] by (simp add: m1)
  next
    case False
    with "1.prems"(1) show ?thesis
      by (subst (asm) copy_components.simps) simp
  qed
qed


subsection \<open>The channel loops\<close>

lemma zero_components_step:
  "i < c \<Longrightarrow> zero_components m out i c = Inr m' \<Longrightarrow>
   valid_cell m out i \<and> zero_components (poke m out i 0) out (i + 1) c = Inr m'"
  by (subst (asm) zero_components.simps) (auto simp: store_def split: if_splits)

lemma zero_components_done: "\<not> i < c \<Longrightarrow> zero_components m out i c = Inr m"
  by (subst zero_components.simps) simp

lemma copy_components_done: "\<not> i < c \<Longrightarrow> copy_components m out data i c = Inr m"
  by (subst copy_components.simps) simp

lemma zero_components_frame:
  "zero_components m out i c = Inr m' \<Longrightarrow>
   (\<forall>k. i \<le> k \<and> k < c \<longrightarrow> cell q j \<noteq> cell out k) \<Longrightarrow>
   load m' q j = load m q j"
proof (induction m out i c rule: zero_components.induct)
  case (1 m out i c)
  show ?case
  proof (cases "i < c")
    case True
    from zero_components_step [OF True "1.prems"(1)]
    have v: "valid_cell m out i"
      and r: "zero_components (poke m out i 0) out (i + 1) c = Inr m'"
      by simp_all
    have s: "store m out i 0 = Inr (poke m out i 0)" using v by simp
    have "load m' q j = load (poke m out i 0) q j"
      using "1.IH" [OF True s r] "1.prems"(2) by simp
    also have "\<dots> = load m q j"
      using "1.prems"(2) True v by (simp add: load_poke)
    finally show ?thesis .
  next
    case False
    with "1.prems"(1) show ?thesis by (simp add: zero_components_done)
  qed
qed

lemma zero_components_valid:
  "zero_components m out i c = Inr m' \<Longrightarrow> valid_cell m' q j = valid_cell m q j"
proof (induction m out i c rule: zero_components.induct)
  case (1 m out i c)
  show ?case
  proof (cases "i < c")
    case True
    from zero_components_step [OF True "1.prems"(1)]
    have v: "valid_cell m out i"
      and r: "zero_components (poke m out i 0) out (i + 1) c = Inr m'"
      by simp_all
    have s: "store m out i 0 = Inr (poke m out i 0)" using v by simp
    show ?thesis using "1.IH" [OF True s r] by simp
  next
    case False
    with "1.prems"(1) show ?thesis by (simp add: zero_components_done)
  qed
qed

lemma zero_components_written:
  "zero_components m out i c = Inr m' \<Longrightarrow> i \<le> k \<Longrightarrow> k < c \<Longrightarrow> load m' out k = Inr 0"
proof (induction m out i c rule: zero_components.induct)
  case (1 m out i c)
  from "1.prems" have True: "i < c" by simp
  from zero_components_step [OF True "1.prems"(1)]
  have v: "valid_cell m out i"
    and r: "zero_components (poke m out i 0) out (i + 1) c = Inr m'"
    by simp_all
  have s: "store m out i 0 = Inr (poke m out i 0)" using v by simp
  show ?case
  proof (cases "k = i")
    case True
    have "load m' out i = load (poke m out i 0) out i"
    proof (rule zero_components_frame [OF r], intro allI impI)
      fix k' assume "i + 1 \<le> k' \<and> k' < c"
      then show "cell out i \<noteq> cell out k'"
        using cell_inj [OF v, of k'] by simp
    qed
    also have "\<dots> = Inr 0" using v by (simp add: load_poke)
    finally show ?thesis using True by simp
  next
    case False
    with "1.prems" have "i + 1 \<le> k" by simp
    from "1.IH" [OF True s r this "1.prems"(3)] show ?thesis .
  qed
qed

lemma zero_components_total:
  "(\<forall>k. i \<le> k \<and> k < c \<longrightarrow> valid_cell m out k) \<Longrightarrow> \<exists>m'. zero_components m out i c = Inr m'"
proof (induction m out i c rule: zero_components.induct)
  case (1 m out i c)
  show ?case
  proof (cases "i < c")
    case True
    with "1.prems" have v: "valid_cell m out i" by simp
    have s: "store m out i 0 = Inr (poke m out i 0)" using v by simp
    have "\<exists>m'. zero_components (poke m out i 0) out (i + 1) c = Inr m'"
      using "1.IH" [OF True s] "1.prems" by simp
    then show ?thesis
      using True v by (subst zero_components.simps) simp
  next
    case False
    then show ?thesis by (simp add: zero_components_done)
  qed
qed

lemma copy_components_step:
  "i < c \<Longrightarrow> copy_components m out data i c = Inr m' \<Longrightarrow>
   \<exists>x. load m data i = Inr x \<and> valid_cell m out i \<and>
       copy_components (poke m out i x) out data (i + 1) c = Inr m'"
  by (subst (asm) copy_components.simps) (auto simp: assign_Inr split: sum.splits)


subsection \<open>The four assignments of the byte samplers\<close>

lemma copy_components_unfold:
  "i < c \<Longrightarrow> copy_components m out data i c =
     and_then (assign m out i data i) (\<lambda>m'. copy_components m' out data (i + 1) c)"
  by (subst copy_components.simps) (simp add: and_then_def)

lemma and_then_Inr [simp]: "and_then r Inr = r"
  by (simp add: and_then_def split: sum.splits)

lemma copy4_eq: "copy4 m out data = copy_components m out data 0 4"
  by (simp add: copy4_def copy_components_unfold copy_components_done)

lemma zero4_Inr:
  "zero4 m out = Inr m' \<longleftrightarrow>
     valid_cell m out 0 \<and> valid_cell m out 1 \<and> valid_cell m out 2 \<and> valid_cell m out 3 \<and>
     m' = poke (poke (poke (poke m out 3 0) out 2 0) out 1 0) out 0 0"
  by (auto simp: zero4_def store_def and_then_def split: if_splits)

lemma zero4_frame:
  "zero4 m out = Inr m' \<Longrightarrow>
   (\<forall>k. 0 \<le> k \<and> k < 4 \<longrightarrow> cell q j \<noteq> cell out k) \<Longrightarrow> load m' q j = load m q j"
  by (auto simp: zero4_Inr load_poke)

lemma zero4_valid: "zero4 m out = Inr m' \<Longrightarrow> valid_cell m' q j = valid_cell m q j"
  by (auto simp: zero4_Inr)

lemma zero4_written:
  assumes "zero4 m out = Inr m'" "0 \<le> k" "k < 4"
  shows "load m' out k = Inr 0"
proof -
  from assms(2,3) have "k = 0 \<or> k = 1 \<or> k = 2 \<or> k = 3" by arith
  then show ?thesis
    using assms(1) by (auto simp: zero4_Inr load_poke)
qed

section \<open>Border mode\<close>

text \<open>
  Where the truncated coordinate is outside the image, the border samplers run the
  zero fill only: the texel buffer is not mentioned on the right-hand side, so it is
  not read.
\<close>

lemma nearest_border_byte_outside:
  assumes "buffer \<noteq> Null" "in_int_range u" "in_int_range v"
    and "truncate u < 0 \<or> truncate u \<ge> width \<or> truncate v < 0 \<or> truncate v \<ge> height"
  shows "interpolate_nearest_border_byte m buffer out width height u v = zero4 m out"
  using assms by (simp add: interpolate_nearest_border_byte_def int_of_float_def)

lemma nearest_border_fl_outside:
  assumes "buffer \<noteq> Null" "in_int_range u" "in_int_range v"
    and "truncate u < 0 \<or> truncate u \<ge> width \<or> truncate v < 0 \<or> truncate v \<ge> height"
  shows "interpolate_nearest_border_fl m buffer out width height components u v =
         zero_components m out 0 components"
  using assms by (simp add: interpolate_nearest_border_fl_def int_of_float_def)

text \<open>
  C1. The claim: wherever \<open>floor(u) < 0\<close>, \<open>floor(u) \<ge> width\<close>, \<open>floor(v) < 0\<close> or
  \<open>floor(v) \<ge> height\<close>, border-mode nearest sampling (byte and float) writes zero to
  every channel and does not read the buffer. The samplers convert with \<^verbatim>\<open>int(u)\<close>,
  which truncates towards zero: at \<open>u = -0.5\<close>, where \<open>floor(u) = -1\<close>, the index is 0
  and the sample is the texel of the first column. Evaluated on a 1x1 image whose
  texel is (10, 20, 30, 40), with a four-cell output array that was never written.
\<close>

theorem nearest_border_left_of_image:
  "\<lfloor>- 1 / 2 :: float\<rfloor> < 0 \<and>
   interpolate_nearest_border_byte
     [[Some 10, Some 20, Some 30, Some 40], [None, None, None, None]]
     (Ptr 0 0) (Ptr 1 0) 1 1 (- 1 / 2) 0 =
   Inr [[Some 10, Some 20, Some 30, Some 40], [Some 10, Some 20, Some 30, Some 40]] \<and>
   interpolate_nearest_border_fl
     [[Some 10, Some 20, Some 30, Some 40], [None, None, None, None]]
     (Ptr 0 0) (Ptr 1 0) 1 1 4 (- 1 / 2) 0 =
   Inr [[Some 10, Some 20, Some 30, Some 40], [Some 10, Some 20, Some 30, Some 40]]"
  by code_simp

section \<open>Texel addresses\<close>


lemma valid_cell_ptr_add: "valid_cell m (ptr_add p a) k = valid_cell m p (a + k)"
  by (simp add: valid_cell_def ptr_add_def add.assoc split: ptr.splits)

lemma cell_ptr_add: "cell (ptr_add p a) k = cell p (a + k)"
  by (simp add: cell_def ptr_add_def add.assoc split: ptr.splits)



lemma writable_iff: "writable m p n \<longleftrightarrow> (\<forall>k. 0 \<le> k \<and> k < n \<longrightarrow> valid_cell m p k)"
  by (auto simp: writable_def)


lemma clamp_in_range: "lo \<le> hi \<Longrightarrow> lo \<le> clamp a lo hi \<and> clamp a lo hi \<le> hi"
  by (simp add: clamp_def)

lemma nearest_fl_cases:
  assumes "nearest_fl mode m buffer out w h c u v = Inr m'"
  shows "zero_components m out 0 c = Inr m' \<or> (\<exists>data. copy_components m out data 0 c = Inr m')"
proof (cases mode)
  case Extend
  with assms show ?thesis
    by (auto simp: nearest_fl_def interpolate_nearest_fl_def and_then_def Let_def
        split: if_splits sum.splits)
next
  case Repeat
  with assms show ?thesis
    by (auto simp: nearest_fl_def interpolate_nearest_wrap_fl_def and_then_def
        split: if_splits sum.splits)
next
  case Border
  with assms show ?thesis
    by (auto simp: nearest_fl_def interpolate_nearest_border_fl_def and_then_def
        split: if_splits sum.splits)
qed

lemma nearest_byte_cases:
  assumes "nearest_byte mode m buffer out w h u v = Inr m'"
  shows "zero4 m out = Inr m' \<or> (\<exists>data. copy_components m out data 0 4 = Inr m')"
proof (cases mode)
  case Extend
  with assms show ?thesis
    by (auto simp: nearest_byte_def interpolate_nearest_byte_def and_then_def Let_def copy4_eq
        split: if_splits sum.splits)
next
  case Repeat
  with assms show ?thesis
    by (auto simp: nearest_byte_def interpolate_nearest_wrap_byte_def and_then_def copy4_eq
        split: if_splits sum.splits)
next
  case Border
  with assms show ?thesis
    by (auto simp: nearest_byte_def interpolate_nearest_border_byte_def and_then_def copy4_eq
        split: if_splits sum.splits)
qed

section \<open>What the samplers write\<close>





text \<open>
  C8. The claim: no sampler mutates the pixel buffer, on any call. The samplers write
  through \<open>output\<close> only, but nothing keeps \<open>output\<close> from pointing into the buffer.
  What holds: a call changes no cell other than \<open>output[0], ..., output[n - 1]\<close>
  (\<open>n = 4\<close> for the byte samplers, \<open>n = components\<close> for the float ones). So every
  texel that is not one of these cells, and the whole buffer when the output array
  does not overlap it, reads after the call as it did before.
\<close>

theorem nearest_samplers_write_output_only:
  "(nearest_byte mode m buffer out width height u v = Inr m' \<longrightarrow>
      (\<forall>q j. (\<forall>i. 0 \<le> i \<and> i < 4 \<longrightarrow> cell q j \<noteq> cell out i) \<longrightarrow>
        load m' q j = load m q j)) \<and>
   (nearest_fl mode f buffer out width height components u v = Inr f' \<longrightarrow>
      (\<forall>q j. (\<forall>i. 0 \<le> i \<and> i < components \<longrightarrow> cell q j \<noteq> cell out i) \<longrightarrow>
        load f' q j = load f q j))"
proof (intro conjI impI allI)
  fix q j
  assume s: "nearest_byte mode m buffer out width height u v = Inr m'"
    and d: "\<forall>i. 0 \<le> i \<and> i < 4 \<longrightarrow> cell q j \<noteq> cell out i"
  from nearest_byte_cases [OF s] show "load m' q j = load m q j"
  proof
    assume "zero4 m out = Inr m'"
    from zero4_frame [OF this d] show ?thesis .
  next
    assume "\<exists>data. copy_components m out data 0 4 = Inr m'"
    then obtain data where "copy_components m out data 0 4 = Inr m'" ..
    from copy_components_frame [OF this d] show ?thesis .
  qed
next
  fix q j
  assume s: "nearest_fl mode f buffer out width height components u v = Inr f'"
    and d: "\<forall>i. 0 \<le> i \<and> i < components \<longrightarrow> cell q j \<noteq> cell out i"
  from nearest_fl_cases [OF s] show "load f' q j = load f q j"
  proof
    assume "zero_components f out 0 components = Inr f'"
    from zero_components_frame [OF this d] show ?thesis .
  next
    assume "\<exists>data. copy_components f out data 0 components = Inr f'"
    then obtain data where "copy_components f out data 0 components = Inr f'" ..
    from copy_components_frame [OF this d] show ?thesis .
  qed
qed

theorem nearest_samplers_write_output_only_witness:
  "nearest_byte Extend
     [[Some 10, Some 20, Some 30, Some 40, Some 50, Some 60, Some 70, Some 80],
      [None, None, None, None]]
     (Ptr 0 0) (Ptr 1 0) 2 1 (3 / 2) 0 =
   Inr [[Some 10, Some 20, Some 30, Some 40, Some 50, Some 60, Some 70, Some 80],
        [Some 50, Some 60, Some 70, Some 80]] \<and>
   load [[Some 10, Some 20, Some 30, Some 40, Some 50, Some 60, Some 70, Some 80],
         [Some 50, Some 60, Some 70, Some (80 :: uchar)]] (Ptr 0 0) 5 =
   load [[Some 10, Some 20, Some 30, Some 40, Some 50, Some 60, Some 70, Some (80 :: uchar)],
         [None, None, None, None]] (Ptr 0 0) 5 \<and>
   nearest_fl Extend [[Some 1, Some 2, Some 3, Some 4], [None, None]]
     (Ptr 0 0) (Ptr 1 0) 2 1 2 (3 / 2) 0 =
   Inr [[Some 1, Some 2, Some 3, Some 4], [Some 3, Some 4]] \<and>
   load [[Some 1, Some 2, Some 3, Some 4], [Some 3, Some (4 :: float)]] (Ptr 0 0) 3 =
   load [[Some 1, Some 2, Some 3, Some (4 :: float)], [None, None]] (Ptr 0 0) 3"
proof -
  let ?m = "[[Some 10, Some 20, Some 30, Some 40, Some 50, Some 60, Some 70, Some (80 :: uchar)],
             [None, None, None, None]]"
  let ?m' = "[[Some 10, Some 20, Some 30, Some 40, Some 50, Some 60, Some 70, Some (80 :: uchar)],
              [Some 50, Some 60, Some 70, Some 80]]"
  let ?f = "[[Some 1, Some 2, Some 3, Some (4 :: float)], [None, None]]"
  let ?f' = "[[Some 1, Some 2, Some 3, Some (4 :: float)], [Some 3, Some 4]]"
  have e: "nearest_byte Extend ?m (Ptr 0 0) (Ptr 1 0) 2 1 (3 / 2) 0 = Inr ?m'"
    by code_simp
  have g: "nearest_fl Extend ?f (Ptr 0 0) (Ptr 1 0) 2 1 2 (3 / 2) 0 = Inr ?f'"
    by code_simp
  have d: "\<forall>i. 0 \<le> i \<and> i < n \<longrightarrow> cell (Ptr 0 0) j \<noteq> cell (Ptr 1 0) i" for n j :: int
    by (simp add: cell_def)
  note t = nearest_samplers_write_output_only
    [of Extend ?m "Ptr 0 0" "Ptr 1 0" 2 1 "3 / 2" 0 ?m' ?f 2 ?f']
  from t e d have "load ?m' (Ptr 0 0) 5 = load ?m (Ptr 0 0) 5" by blast
  moreover from t g d have "load ?f' (Ptr 0 0) 3 = load ?f (Ptr 0 0) 3" by blast
  ultimately show ?thesis using e g by simp
qed

text \<open>
  The call with \<open>output = buffer + 4\<close> on a 2x1 byte image copies the first texel over
  the second one: a texel of the buffer has changed.
\<close>

theorem nearest_output_inside_buffer:
  "nearest_byte Extend
     [[Some 10, Some 20, Some 30, Some 40, Some 50, Some 60, Some 70, Some 80]]
     (Ptr 0 0) (Ptr 0 4) 2 1 0 0 =
   Inr [[Some 10, Some 20, Some 30, Some 40, Some 10, Some 20, Some 30, Some 40]] \<and>
   load [[Some 10, Some 20, Some 30, Some 40, Some 10, Some 20, Some 30, Some (40 :: uchar)]]
     (Ptr 0 0) 4 \<noteq>
   load [[Some 10, Some 20, Some 30, Some 40, Some 50, Some 60, Some 70, Some (80 :: uchar)]]
     (Ptr 0 0) 4"
  by code_simp

section \<open>Copying a texel into an array that does not overlap it\<close>

lemma and_then_assoc:
  "and_then (and_then r f) g = and_then r (\<lambda>x. and_then (f x) g)"
  by (cases r) simp_all

lemma and_then_if:
  "and_then (if c then r else s) g = (if c then and_then r g else and_then s g)"
  by simp

lemma block_of_ptr_add [simp]: "block_of (ptr_add p a) = block_of p"
  by (cases p) (simp_all add: block_of_def ptr_add_def)

lemma allocated_ptr_add [simp]: "allocated m (ptr_add p a) = allocated m p"
  by (cases p) (simp_all add: allocated_def ptr_add_def)

lemma cell_neq_block: "block_of p \<noteq> block_of q \<Longrightarrow> cell p i \<noteq> cell q j"
  by (cases p; cases q) (simp_all add: cell_def block_of_def)

lemma load_range_done: "\<not> i < c \<Longrightarrow> load_range m data i c = Inr []"
  by (subst load_range.simps) simp

lemma load_range_unfold:
  "i < c \<Longrightarrow> load_range m data i c =
     and_then (load m data i) (\<lambda>x.
     and_then (load_range m data (i + 1) c) (\<lambda>xs. Inr (x # xs)))"
  by (subst load_range.simps) (simp add: and_then_def)

lemma load_range_cong:
  "(\<And>k. i \<le> k \<Longrightarrow> k < c \<Longrightarrow> load m1 data k = load m2 data k) \<Longrightarrow>
   load_range m1 data i c = load_range m2 data i c"
proof (induction m1 data i c rule: load_range.induct)
  case (1 m1 data i c)
  show ?case
  proof (cases "i < c")
    case True
    have l: "load m1 data i = load m2 data i" using "1.prems" True by simp
    show ?thesis
    proof (cases "load m2 data i")
      case (Inl e)
      then show ?thesis using True l by (simp add: load_range_unfold)
    next
      case (Inr x)
      have "load_range m1 data (i + 1) c = load_range m2 data (i + 1) c"
        using "1.IH" [OF True] l Inr "1.prems" by simp
      then show ?thesis using True l Inr by (simp add: load_range_unfold)
    qed
  next
    case False
    then show ?thesis by (simp add: load_range_done)
  qed
qed

lemma load_range_length:
  "load_range m data i c = Inr xs \<Longrightarrow> length xs = nat (c - i)"
proof (induction m data i c arbitrary: xs rule: load_range.induct)
  case (1 m data i c)
  show ?case
  proof (cases "i < c")
    case True
    with "1.prems" obtain x ys where
      l: "load m data i = Inr x" and r: "load_range m data (i + 1) c = Inr ys"
      and xs: "xs = x # ys"
      by (subst (asm) load_range.simps) (auto split: sum.splits)
    from "1.IH" [OF True l r] have "length ys = nat (c - (i + 1))" .
    with True show ?thesis by (simp add: xs nat_diff_distrib Suc_nat_eq_nat_zadd1)
  next
    case False
    with "1.prems" show ?thesis by (simp add: load_range_done)
  qed
qed

lemma copy_components_separate:
  assumes "block_of out \<noteq> block_of data"
    and "\<forall>k. i \<le> k \<and> k < c \<longrightarrow> valid_cell m out k"
  shows "copy_components m out data i c =
         and_then (load_range m data i c) (\<lambda>xs. Inr (write_range m out i xs))"
  using assms
proof (induction m out data i c rule: copy_components.induct)
  case (1 m out data i c)
  show ?case
  proof (cases "i < c")
    case True
    with "1.prems" have v: "valid_cell m out i" by simp
    show ?thesis
    proof (cases "load m data i")
      case (Inl e)
      then show ?thesis
        using True by (simp add: copy_components_unfold load_range_unfold assign_def)
    next
      case (Inr x)
      let ?m1 = "poke m out i x"
      have a: "assign m out i data i = Inr ?m1" using v Inr by (simp add: assign_def)
      have "\<forall>k. i + 1 \<le> k \<and> k < c \<longrightarrow> valid_cell ?m1 out k" using "1.prems"(2) by simp
      from "1.IH" [OF True a "1.prems"(1) this]
      have "copy_components ?m1 out data (i + 1) c =
            and_then (load_range ?m1 data (i + 1) c) (\<lambda>xs. Inr (write_range ?m1 out (i + 1) xs))" .
      moreover have "load_range ?m1 data (i + 1) c = load_range m data (i + 1) c"
        using v cell_neq_block [OF "1.prems"(1) [symmetric]]
        by (intro load_range_cong) (simp add: load_poke)
      ultimately show ?thesis
        using True a Inr
        by (simp add: copy_components_unfold load_range_unfold and_then_assoc)
    qed
  next
    case False
    then show ?thesis by (simp add: copy_components_done load_range_done)
  qed
qed

lemma list4:
  assumes "length xs = 4"
  obtains a b c d where "xs = [a, b, c, d]"
proof -
  from assms obtain a b c d where "xs = [a, b, c, d]"
    by (cases xs; cases "tl xs"; cases "tl (tl xs)"; cases "tl (tl (tl xs))") auto
  then show ?thesis by (rule that)
qed

lemma read4_write_range:
  assumes "writable m out 4"
  shows "read4 (write_range m out 0 [a, b, c, d]) out = Inr (Vec4 a b c d)"
proof -
  from assms have v: "valid_cell m out 0" "valid_cell m out 1" "valid_cell m out 2"
    "valid_cell m out 3"
    by (simp_all add: writable_iff)
  have n: "cell out i = cell out k \<longleftrightarrow> i = k" for i k
    using v(1) by (cases out) (auto simp: cell_def valid_cell_def)
  show ?thesis
    using v by (simp add: read4_def load_poke n)
qed

lemma copy_read4:
  assumes "block_of out \<noteq> block_of data" "writable m out 4"
  shows "and_then (copy_components m out data 0 4) (\<lambda>m'. read4 m' out) =
         and_then (load_range m data 0 4) vec4_of_list"
proof (cases "load_range m data 0 4")
  case (Inl e)
  then show ?thesis
    using assms by (simp add: copy_components_separate writable_iff)
next
  case (Inr xs)
  from load_range_length [OF Inr] have "length xs = 4" by simp
  then obtain a b c d where xs: "xs = [a, b, c, d]" by (rule list4)
  show ?thesis
    using assms read4_write_range [OF assms(2), of a b c d]
    by (simp add: copy_components_separate writable_iff Inr xs)
qed

lemma zero_components_read4:
  assumes "writable m out 4"
  shows "and_then (zero_components m out 0 4) (\<lambda>m'. read4 m' out) = Inr (Vec4 0 0 0 0)"
proof -
  from assms obtain m' where z: "zero_components m out 0 4 = Inr m'"
    using zero_components_total [of 0 4 m out] by (auto simp: writable_iff)
  from zero_components_written [OF z] show ?thesis
    by (simp add: z read4_def)
qed

lemma zero4_read4:
  assumes "writable m out 4"
  shows "and_then (zero4 m out) (\<lambda>m'. read4 m' out) = Inr (Vec4 0 0 0 0)"
proof -
  from assms have "zero4 m out = Inr (poke (poke (poke (poke m out 3 0) out 2 0) out 1 0) out 0 0)"
    by (simp add: zero4_Inr writable_iff)
  from zero4_written [OF this] this show ?thesis
    by (simp add: read4_def)
qed

subsection \<open>The fresh local of an overload\<close>

lemma load_append: "allocated m p \<Longrightarrow> load (m @ bs) p k = load m p k"
  by (cases p) (simp_all add: load_def valid_cell_def peek_def allocated_def nth_append)

lemma load_range_append:
  "allocated m data \<Longrightarrow> load_range (m @ bs) data i c = load_range m data i c"
  by (intro load_range_cong) (simp add: load_append)

lemma writable_alloca: "writable (m @ [replicate 4 None]) (Ptr (length m) 0) 4"
  by (simp add: writable_iff valid_cell_def)

lemma block_of_alloca: "allocated m p \<Longrightarrow> block_of (Ptr (length m) 0) \<noteq> block_of p"
  by (cases p) (simp_all add: block_of_def allocated_def)

lemma copy_read4_local:
  assumes "allocated m data" "block_of out \<noteq> block_of data" "writable m out 4"
  shows "and_then (copy_components (m @ [replicate 4 None]) (Ptr (length m) 0) data 0 4)
           (\<lambda>m2. read4 m2 (Ptr (length m) 0)) =
         and_then (copy_components m out data 0 4) (\<lambda>m'. read4 m' out)"
  using assms
  by (simp add: copy_read4 writable_alloca block_of_alloca load_range_append)

section \<open>The overloads that return a value\<close>

lemma allocated_not_Null: "allocated m p \<Longrightarrow> p \<noteq> Null"
  by (auto simp: allocated_def)

lemma load_range4: "and_then (load_range m data 0 4) vec4_of_list = read4 m data"
proof -
  have "and_then (and_then r (\<lambda>xs. Inr (x # xs))) g = and_then r (\<lambda>xs. g (x # xs))"
    for r :: "fault + 'a list" and x and g :: "'a list \<Rightarrow> fault + 'a vec4"
    by (cases r) simp_all
  then show ?thesis
    by (simp add: load_range_unfold load_range_done read4_def and_then_assoc)
qed

lemma copy_read4_texel:
  assumes "block_of out \<noteq> block_of data" "writable m out 4"
  shows "and_then (copy_components m out data 0 4) (\<lambda>m'. read4 m' out) = read4 m data"
  using assms by (simp add: copy_read4 load_range4)

lemma local_read4_texel:
  assumes "allocated m data"
  shows "and_then (copy_components (m @ [replicate 4 None]) (Ptr (length m) 0) data 0 4)
           (\<lambda>m2. read4 m2 (Ptr (length m) 0)) = read4 m data"
proof -
  have "read4 (m @ [replicate 4 None]) data = read4 m data"
    using assms by (simp add: read4_def load_append)
  then show ?thesis
    using assms by (simp add: copy_read4_texel block_of_alloca writable_alloca)
qed

lemmas overload_simps =
  alloca_def and_then_assoc and_then_if Let_def copy4_eq local_read4_texel copy_read4_texel
  zero4_read4 zero_components_read4 writable_alloca

lemma border_byte_overload:
  assumes "allocated m buffer" "block_of out \<noteq> block_of buffer" "writable m out 4"
  shows "interpolate_nearest_border_byte_uchar4 m buffer w h u v =
         and_then (interpolate_nearest_border_byte m buffer out w h u v) (\<lambda>m'. read4 m' out)"
  using assms
  by (simp add: interpolate_nearest_border_byte_uchar4_def interpolate_nearest_border_byte_def
      overload_simps cong: if_cong)

lemma border_fl_overload:
  assumes "allocated m buffer" "block_of out \<noteq> block_of buffer" "writable m out 4"
  shows "interpolate_nearest_border_fl_float4 m buffer w h u v =
         and_then (interpolate_nearest_border_fl m buffer out w h 4 u v) (\<lambda>m'. read4 m' out)"
  using assms
  by (simp add: interpolate_nearest_border_fl_float4_def interpolate_nearest_border_fl_def
      overload_simps cong: if_cong)

lemma clamp_byte_overload:
  assumes "allocated m buffer" "block_of out \<noteq> block_of buffer" "writable m out 4"
  shows "interpolate_nearest_byte_uchar4 m buffer w h u v =
         and_then (interpolate_nearest_byte m buffer out w h u v) (\<lambda>m'. read4 m' out)"
  using assms
  by (simp add: interpolate_nearest_byte_uchar4_def interpolate_nearest_byte_def
      overload_simps cong: if_cong)

lemma clamp_fl_overload:
  assumes "allocated m buffer" "block_of out \<noteq> block_of buffer" "writable m out 4"
  shows "interpolate_nearest_fl_float4 m buffer w h u v =
         and_then (interpolate_nearest_fl m buffer out w h 4 u v) (\<lambda>m'. read4 m' out)"
  using assms
  by (simp add: interpolate_nearest_fl_float4_def interpolate_nearest_fl_def
      overload_simps cong: if_cong)

lemma wrap_byte_overload:
  assumes "allocated m buffer" "block_of out \<noteq> block_of buffer" "writable m out 4"
  shows "interpolate_nearest_wrap_byte_uchar4 m buffer w h u v =
         and_then (interpolate_nearest_wrap_byte m buffer out w h u v) (\<lambda>m'. read4 m' out)"
  using assms
  by (simp add: interpolate_nearest_wrap_byte_uchar4_def interpolate_nearest_wrap_byte_def
      overload_simps cong: if_cong)

lemma wrap_fl_overload:
  assumes "allocated m buffer" "block_of out \<noteq> block_of buffer" "writable m out 4"
  shows "interpolate_nearest_wrap_fl_float4 m buffer w h u v =
         and_then (interpolate_nearest_wrap_fl m buffer out w h 4 u v) (\<lambda>m'. read4 m' out)"
  using assms
  by (simp add: interpolate_nearest_wrap_fl_float4_def interpolate_nearest_wrap_fl_def
      overload_simps cong: if_cong)

text \<open>
  C9. The overloads that return a \<^verbatim>\<open>uchar4\<close> or a \<^verbatim>\<open>float4\<close> give the four channel
  values that the output-pointer variant (with \<open>components = 4\<close> for the float
  samplers) leaves in its output, for the same buffer, extents and coordinates; where
  one faults, the other faults alike. The buffer is any allocated array and the
  output of the pointer variant any four allocated cells of another array; no
  assumption on the extents or the coordinates is needed.
\<close>

theorem nearest_overloads_agree:
  assumes "block_of out \<noteq> block_of buffer"
    and "allocated m buffer" "writable m out 4"
    and "allocated f buffer" "writable f out 4"
  shows "nearest_byte_uchar4 mode m buffer width height u v =
           and_then (nearest_byte mode m buffer out width height u v) (\<lambda>m'. read4 m' out) \<and>
         nearest_fl_float4 mode f buffer width height u v =
           and_then (nearest_fl mode f buffer out width height 4 u v) (\<lambda>f'. read4 f' out)"
proof (cases mode)
  case Extend
  then show ?thesis
    using clamp_byte_overload [OF assms(2,1,3)] clamp_fl_overload [OF assms(4,1,5)]
    by (simp add: nearest_byte_uchar4_def nearest_byte_def nearest_fl_float4_def nearest_fl_def)
next
  case Repeat
  then show ?thesis
    using wrap_byte_overload [OF assms(2,1,3)] wrap_fl_overload [OF assms(4,1,5)]
    by (simp add: nearest_byte_uchar4_def nearest_byte_def nearest_fl_float4_def nearest_fl_def)
next
  case Border
  then show ?thesis
    using border_byte_overload [OF assms(2,1,3)] border_fl_overload [OF assms(4,1,5)]
    by (simp add: nearest_byte_uchar4_def nearest_byte_def nearest_fl_float4_def nearest_fl_def)
qed

theorem nearest_overloads_agree_witness:
  "block_of (Ptr 1 0) \<noteq> block_of (Ptr 0 0) \<and>
   allocated [[Some 10, Some 20, Some 30, Some 40, Some 50, Some 60, Some 70, Some (80 :: uchar)],
              [None, None, None, None]] (Ptr 0 0) \<and>
   writable [[Some 10, Some 20, Some 30, Some 40, Some 50, Some 60, Some 70, Some (80 :: uchar)],
             [None, None, None, None]] (Ptr 1 0) 4 \<and>
   allocated [[Some 1, Some 2, Some 3, Some 4, Some 5, Some 6, Some 7, Some (8 :: float)],
              [None, None, None, None]] (Ptr 0 0) \<and>
   writable [[Some 1, Some 2, Some 3, Some 4, Some 5, Some 6, Some 7, Some (8 :: float)],
             [None, None, None, None]] (Ptr 1 0) 4 \<and>
   nearest_byte_uchar4 Extend
     [[Some 10, Some 20, Some 30, Some 40, Some 50, Some 60, Some 70, Some 80],
      [None, None, None, None]] (Ptr 0 0) 2 1 (3 / 2) 0 =
   and_then
     (nearest_byte Extend
        [[Some 10, Some 20, Some 30, Some 40, Some 50, Some 60, Some 70, Some 80],
         [None, None, None, None]] (Ptr 0 0) (Ptr 1 0) 2 1 (3 / 2) 0)
     (\<lambda>m'. read4 m' (Ptr 1 0)) \<and>
   nearest_byte_uchar4 Extend
     [[Some 10, Some 20, Some 30, Some 40, Some 50, Some 60, Some 70, Some 80],
      [None, None, None, None]] (Ptr 0 0) 2 1 (3 / 2) 0 = Inr (Vec4 50 60 70 80) \<and>
   nearest_fl_float4 Extend
     [[Some 1, Some 2, Some 3, Some 4, Some 5, Some 6, Some 7, Some 8],
      [None, None, None, None]] (Ptr 0 0) 2 1 (3 / 2) 0 =
   and_then
     (nearest_fl Extend
        [[Some 1, Some 2, Some 3, Some 4, Some 5, Some 6, Some 7, Some 8],
         [None, None, None, None]] (Ptr 0 0) (Ptr 1 0) 2 1 4 (3 / 2) 0)
     (\<lambda>f'. read4 f' (Ptr 1 0)) \<and>
   nearest_fl_float4 Extend
     [[Some 1, Some 2, Some 3, Some 4, Some 5, Some 6, Some 7, Some 8],
      [None, None, None, None]] (Ptr 0 0) 2 1 (3 / 2) 0 = Inr (Vec4 5 6 7 8)"
proof -
  let ?m = "[[Some 10, Some 20, Some 30, Some 40, Some 50, Some 60, Some 70, Some (80 :: uchar)],
             [None, None, None, None]]"
  let ?f = "[[Some 1, Some 2, Some 3, Some 4, Some 5, Some 6, Some 7, Some (8 :: float)],
             [None, None, None, None]]"
  have h: "block_of (Ptr 1 0) \<noteq> block_of (Ptr 0 0)"
    "allocated ?m (Ptr 0 0)" "writable ?m (Ptr 1 0) 4"
    "allocated ?f (Ptr 0 0)" "writable ?f (Ptr 1 0) 4"
    by code_simp+
  have e: "nearest_byte_uchar4 Extend ?m (Ptr 0 0) 2 1 (3 / 2) 0 = Inr (Vec4 50 60 70 80)"
    "nearest_fl_float4 Extend ?f (Ptr 0 0) 2 1 (3 / 2) 0 = Inr (Vec4 5 6 7 8)"
    by code_simp+
  from nearest_overloads_agree [OF h, of Extend 2 1 "3 / 2" 0] h e
  show ?thesis by simp
qed

section \<open>Extend mode\<close>

lemma clamp_nonpositive: "1 \<le> w \<Longrightarrow> a \<le> 0 \<Longrightarrow> clamp a 0 (w - 1) = 0"
  by (simp add: clamp_def)

lemma clamp_truncate:
  assumes "1 \<le> w"
  shows "clamp (truncate u) 0 (w - 1) = clamp \<lfloor>u\<rfloor> 0 (w - 1)"
proof (cases "u < 0")
  case True
  then have "\<lfloor>u\<rfloor> \<le> 0" "\<lceil>u\<rceil> \<le> 0" by linarith+
  then have "clamp \<lfloor>u\<rfloor> 0 (w - 1) = 0" "clamp \<lceil>u\<rceil> 0 (w - 1) = 0"
    using assms by (simp_all only: clamp_nonpositive)
  then show ?thesis using True by (simp only: truncate_def if_True)
next
  case False
  then show ?thesis by (simp add: truncate_def)
qed

lemma in_int_range_0 [simp]: "in_int_range 0"
  by (simp add: in_int_range_def truncate_def INT_MIN_def INT_MAX_def)

lemma nearest_byte_eq:
  assumes "buffer \<noteq> Null" "1 \<le> w" "1 \<le> h" "in_int_range u" "in_int_range v"
  shows "interpolate_nearest_byte m buffer out w h u v =
         copy4 m out (texel_ptr buffer w 4 (clamp \<lfloor>u\<rfloor> 0 (w - 1)) (clamp \<lfloor>v\<rfloor> 0 (h - 1)))"
  using assms
  by (simp add: interpolate_nearest_byte_def int_of_float_def texel_ptr_def clamp_truncate)

lemma nearest_fl_eq:
  assumes "buffer \<noteq> Null" "1 \<le> w" "1 \<le> h" "in_int_range u" "in_int_range v"
  shows "interpolate_nearest_fl m buffer out w h c u v =
         copy_components m out
           (texel_ptr buffer w c (clamp \<lfloor>u\<rfloor> 0 (w - 1)) (clamp \<lfloor>v\<rfloor> 0 (h - 1))) 0 c"
  using assms
  by (simp add: interpolate_nearest_fl_def int_of_float_def texel_ptr_def clamp_truncate)

lemma allocated_texel_ptr [simp]: "allocated m (texel_ptr p w c x y) = allocated m p"
  by (simp add: texel_ptr_def)

lemma nearest_byte_uchar4_eq:
  assumes "allocated m buffer" "1 \<le> w" "1 \<le> h" "in_int_range u" "in_int_range v"
  shows "interpolate_nearest_byte_uchar4 m buffer w h u v =
         read4 m (texel_ptr buffer w 4 (clamp \<lfloor>u\<rfloor> 0 (w - 1)) (clamp \<lfloor>v\<rfloor> 0 (h - 1)))"
  using assms allocated_not_Null [OF assms(1)]
  by (simp add: interpolate_nearest_byte_uchar4_def alloca_def nearest_byte_eq copy4_eq
      local_read4_texel)

lemma nearest_fl_float4_eq:
  assumes "allocated m buffer" "1 \<le> w" "1 \<le> h" "in_int_range u" "in_int_range v"
  shows "interpolate_nearest_fl_float4 m buffer w h u v =
         read4 m (texel_ptr buffer w 4 (clamp \<lfloor>u\<rfloor> 0 (w - 1)) (clamp \<lfloor>v\<rfloor> 0 (h - 1)))"
  using assms allocated_not_Null [OF assms(1)]
  by (simp add: interpolate_nearest_fl_float4_def alloca_def nearest_fl_eq local_read4_texel)

text \<open>
  C3. Extend-mode nearest sampling returns the texel at the index
  \<open>(clamp(floor(u), 0, width - 1), clamp(floor(v), 0, height - 1))\<close>, and so, wherever
  \<open>floor(u) < 0\<close>, the sample at \<open>u\<close> is the sample at \<open>u = 0\<close>. The source truncates
  with \<^verbatim>\<open>int(u)\<close> before it clamps; a negative coordinate truncates to a value that
  is at most 0 and clamps to 0, as its floor does. Stated for the byte and float
  samplers, both as the value an overload returns (the four channels read at that
  texel) and as the copy the pointer variant runs; for a buffer that points into
  allocated memory, positive extents and coordinates that convert to \<^verbatim>\<open>int\<close>.
\<close>

theorem nearest_clamp_texel:
  assumes "allocated m buffer" "allocated f buffer" "1 \<le> width" "1 \<le> height"
    and "in_int_range u" "in_int_range v"
  shows
    "interpolate_nearest_byte_uchar4 m buffer width height u v =
       read4 m (texel_ptr buffer width 4
         (clamp \<lfloor>u\<rfloor> 0 (width - 1)) (clamp \<lfloor>v\<rfloor> 0 (height - 1))) \<and>
     interpolate_nearest_fl_float4 f buffer width height u v =
       read4 f (texel_ptr buffer width 4
         (clamp \<lfloor>u\<rfloor> 0 (width - 1)) (clamp \<lfloor>v\<rfloor> 0 (height - 1))) \<and>
     interpolate_nearest_byte m buffer out width height u v =
       copy4 m out (texel_ptr buffer width 4
         (clamp \<lfloor>u\<rfloor> 0 (width - 1)) (clamp \<lfloor>v\<rfloor> 0 (height - 1))) \<and>
     interpolate_nearest_fl f buffer out width height components u v =
       copy_components f out (texel_ptr buffer width components
         (clamp \<lfloor>u\<rfloor> 0 (width - 1)) (clamp \<lfloor>v\<rfloor> 0 (height - 1))) 0 components \<and>
     (\<lfloor>u\<rfloor> < 0 \<longrightarrow>
        interpolate_nearest_byte_uchar4 m buffer width height u v =
          interpolate_nearest_byte_uchar4 m buffer width height 0 v \<and>
        interpolate_nearest_fl_float4 f buffer width height u v =
          interpolate_nearest_fl_float4 f buffer width height 0 v \<and>
        interpolate_nearest_byte m buffer out width height u v =
          interpolate_nearest_byte m buffer out width height 0 v \<and>
        interpolate_nearest_fl f buffer out width height components u v =
          interpolate_nearest_fl f buffer out width height components 0 v)"
proof -
  note b = allocated_not_Null [OF assms(1)]
  note e = nearest_byte_uchar4_eq [OF assms(1,3,4)] nearest_fl_float4_eq [OF assms(2,3,4)]
    nearest_byte_eq [OF b assms(3,4)] nearest_fl_eq [OF b assms(3,4)]
  have "clamp \<lfloor>u\<rfloor> 0 (width - 1) = clamp \<lfloor>0 :: float\<rfloor> 0 (width - 1)" if "\<lfloor>u\<rfloor> < 0"
    using that assms(3) by (simp add: clamp_def)
  then show ?thesis
    using assms(5,6) by (simp add: e)
qed

theorem nearest_clamp_texel_witness:
  "allocated [[Some 10, Some 20, Some 30, Some 40, Some 50, Some 60, Some 70, Some (80 :: uchar)],
              [None, None, None, None]] (Ptr 0 0) \<and>
   allocated [[Some 1, Some 2, Some 3, Some 4, Some 5, Some 6, Some 7, Some (8 :: float)],
              [None, None, None, None]] (Ptr 0 0) \<and>
   (1 :: int) \<le> 2 \<and> (1 :: int) \<le> 1 \<and> in_int_range (- 5 / 2) \<and> in_int_range 0 \<and>
   \<lfloor>- 5 / 2 :: float\<rfloor> < 0 \<and>
   interpolate_nearest_byte_uchar4
     [[Some 10, Some 20, Some 30, Some 40, Some 50, Some 60, Some 70, Some 80],
      [None, None, None, None]] (Ptr 0 0) 2 1 (- 5 / 2) 0 =
   interpolate_nearest_byte_uchar4
     [[Some 10, Some 20, Some 30, Some 40, Some 50, Some 60, Some 70, Some 80],
      [None, None, None, None]] (Ptr 0 0) 2 1 0 0 \<and>
   interpolate_nearest_byte_uchar4
     [[Some 10, Some 20, Some 30, Some 40, Some 50, Some 60, Some 70, Some 80],
      [None, None, None, None]] (Ptr 0 0) 2 1 (- 5 / 2) 0 = Inr (Vec4 10 20 30 40) \<and>
   interpolate_nearest_fl
     [[Some 1, Some 2, Some 3, Some 4, Some 5, Some 6, Some 7, Some 8],
      [None, None, None, None]] (Ptr 0 0) (Ptr 1 0) 2 1 4 (- 5 / 2) 0 =
   interpolate_nearest_fl
     [[Some 1, Some 2, Some 3, Some 4, Some 5, Some 6, Some 7, Some 8],
      [None, None, None, None]] (Ptr 0 0) (Ptr 1 0) 2 1 4 0 0 \<and>
   interpolate_nearest_fl
     [[Some 1, Some 2, Some 3, Some 4, Some 5, Some 6, Some 7, Some 8],
      [None, None, None, None]] (Ptr 0 0) (Ptr 1 0) 2 1 4 (- 5 / 2) 0 =
   Inr [[Some 1, Some 2, Some 3, Some 4, Some 5, Some 6, Some 7, Some 8],
        [Some 1, Some 2, Some 3, Some 4]]"
proof -
  let ?m = "[[Some 10, Some 20, Some 30, Some 40, Some 50, Some 60, Some 70, Some (80 :: uchar)],
             [None, None, None, None]]"
  let ?f = "[[Some 1, Some 2, Some 3, Some 4, Some 5, Some 6, Some 7, Some (8 :: float)],
             [None, None, None, None]]"
  have h: "allocated ?m (Ptr 0 0)" "allocated ?f (Ptr 0 0)" "(1 :: int) \<le> 2" "(1 :: int) \<le> 1"
    "in_int_range (- 5 / 2)" "in_int_range 0"
    by code_simp+
  have n: "\<lfloor>- 5 / 2 :: float\<rfloor> < 0" by code_simp
  have e: "interpolate_nearest_byte_uchar4 ?m (Ptr 0 0) 2 1 (- 5 / 2) 0 = Inr (Vec4 10 20 30 40)"
    "interpolate_nearest_fl ?f (Ptr 0 0) (Ptr 1 0) 2 1 4 (- 5 / 2) 0 =
     Inr [[Some 1, Some 2, Some 3, Some 4, Some 5, Some 6, Some 7, Some 8],
          [Some 1, Some 2, Some 3, Some 4]]"
    by code_simp+
  from nearest_clamp_texel [OF h, of "Ptr 1 0" 4] n
  have "interpolate_nearest_byte_uchar4 ?m (Ptr 0 0) 2 1 (- 5 / 2) 0 =
          interpolate_nearest_byte_uchar4 ?m (Ptr 0 0) 2 1 0 0"
    and "interpolate_nearest_fl ?f (Ptr 0 0) (Ptr 1 0) 2 1 4 (- 5 / 2) 0 =
          interpolate_nearest_fl ?f (Ptr 0 0) (Ptr 1 0) 2 1 4 0 0"
    by blast+
  then show ?thesis using h n e by simp
qed

section \<open>Repeat mode\<close>

text \<open>
  The wrapped coordinate is stored in a \<^verbatim>\<open>float\<close>. The facts below evaluate the rounding
  and the three operations of \<^verbatim>\<open>floored_fmod\<close> one by one.
\<close>

lemmas round_eval =
  round_binary32_def float_exponent_def exponent_down.simps exponent_up.simps pow2_def
  round_half_even_def Let_def

lemma int_of_float_0: "int_of_float 0 = Inr 0"
  by (simp add: int_of_float_def in_int_range_def truncate_def INT_MIN_def INT_MAX_def)

lemma float_of_int_1: "float_of_int 1 = Inr 1"
  by (simp add: float_of_int_def round_eval)

lemma floored_fmod_0_1: "floored_fmod 0 1 = Inr 0"
proof -
  have d: "float_div 0 1 = Inr 0"
    by (simp add: float_div_def round_eval)
  have m: "float_mul 1 (floorf 0) = Inr 0"
    by (simp add: float_mul_def floorf_def round_eval)
  have s: "float_sub 0 0 = Inr 0"
    by (simp add: float_sub_def round_eval)
  show ?thesis
    by (simp only: floored_fmod_def d m s and_then_simps)
qed

lemma float_of_int_2: "float_of_int 2 = Inr 2"
  by (simp add: float_of_int_def round_eval)

lemma floored_fmod_tiny_negative: "floored_fmod (- (1 / 134217728)) 2 = Inr 2"
proof -
  have d: "float_div (- (1 / 134217728)) 2 = Inr (- (1 / 268435456))"
    by (simp add: float_div_def round_eval)
  have m: "float_mul 2 (floorf (- (1 / 268435456))) = Inr (- 2)"
    by (simp add: float_mul_def floorf_def round_eval)
  have s: "float_sub (- (1 / 134217728)) (- 2) = Inr 2"
    by (simp add: float_sub_def round_eval)
  show ?thesis
    by (simp only: floored_fmod_def d m s and_then_simps)
qed

lemma int_of_float_2: "int_of_float 2 = Inr 2"
  by (simp add: int_of_float_def in_int_range_def truncate_def INT_MIN_def INT_MAX_def)

lemma floored_fmod_minus_1e8: "floored_fmod (- (11258999 / 1125899906842624)) 2 = Inr 2"
proof -
  have d: "float_div (- (11258999 / 1125899906842624)) 2 =
           Inr (- (11258999 / 2251799813685248))"
    by (simp add: float_div_def round_eval)
  have m: "float_mul 2 (floorf (- (11258999 / 2251799813685248))) = Inr (- 2)"
    by (simp add: float_mul_def floorf_def round_eval)
  have s: "float_sub (- (11258999 / 1125899906842624)) (- 2) = Inr 2"
    by (simp add: float_sub_def round_eval)
  show ?thesis
    by (simp only: floored_fmod_def d m s and_then_simps)
qed

text \<open>
  C10. The claim: in the repeat-mode nearest samplers, for positive extents and every
  finite coordinate, the indices obtained by truncating the floored-modulo results
  satisfy \<open>0 \<le> x < width\<close> and \<open>0 \<le> y < height\<close>, so that the in-range assertion never
  fires and the read is in bounds. At \<open>width = 2\<close> and \<open>u = -1e-8f\<close> (the float
  \<open>-11258999 / 2^50\<close>), and likewise at \<open>u = -2^-27\<close>, the quotient \<open>u / 2\<close> has floor
  \<open>-1\<close> and the exact remainder lies less than \<open>2^-24\<close> below 2; the floats below 2
  are \<open>2^-23\<close> apart, so the remainder rounds to \<open>2.0f\<close>, \<open>x = int(2.0f) = 2 = width\<close>,
  and the sampler stops at its own
  \<^verbatim>\<open>BLI_assert(x >= 0 && y >= 0 && x < width && y < height)\<close>, whatever the memory, the
  output and the channel count are.
\<close>

theorem nearest_wrap_index_reaches_width:
  "round_binary32 (- (1 / 100000000)) = Inr (- (11258999 / 1125899906842624)) \<and>
   is_binary32 (- (1 / 134217728)) \<and>
   float_of_int 2 = Inr 2 \<and>
   floored_fmod (- (11258999 / 1125899906842624)) 2 = Inr 2 \<and>
   floored_fmod (- (1 / 134217728)) 2 = Inr 2 \<and>
   int_of_float 2 = Inr 2 \<and>
   interpolate_nearest_wrap_byte m (Ptr 0 0) output 2 1 (- (11258999 / 1125899906842624)) 0 =
     Inl Assertion_Failed \<and>
   interpolate_nearest_wrap_fl f (Ptr 0 0) output 2 1 components
     (- (11258999 / 1125899906842624)) 0 = Inl Assertion_Failed \<and>
   interpolate_nearest_wrap_byte m (Ptr 0 0) output 2 1 (- (1 / 134217728)) 0 =
     Inl Assertion_Failed \<and>
   interpolate_nearest_wrap_fl f (Ptr 0 0) output 2 1 components (- (1 / 134217728)) 0 =
     Inl Assertion_Failed"
proof -
  have "round_binary32 (- (1 / 100000000)) = Inr (- (11258999 / 1125899906842624))"
    "is_binary32 (- (1 / 134217728))"
    by (simp_all add: is_binary32_def round_eval)
  then show ?thesis
    by (simp add: interpolate_nearest_wrap_byte_def interpolate_nearest_wrap_fl_def
        float_of_int_1 float_of_int_2 floored_fmod_0_1 floored_fmod_tiny_negative
        floored_fmod_minus_1e8 int_of_float_0 int_of_float_2)
qed

lemma float_of_int_524288: "float_of_int 524288 = Inr 524288"
  by (simp add: float_of_int_def round_eval)

lemma floored_fmod_minus_hundredth:
  "floored_fmod (- (5368709 / 536870912)) 524288 = Inr 524288"
proof -
  have d: "float_div (- (5368709 / 536870912)) 524288 = Inr (- (5368709 / 281474976710656))"
    by (simp add: float_div_def round_eval)
  have m: "float_mul 524288 (floorf (- (5368709 / 281474976710656))) = Inr (- 524288)"
    by (simp add: float_mul_def floorf_def round_eval)
  have s: "float_sub (- (5368709 / 536870912)) (- 524288) = Inr 524288"
    by (simp add: float_sub_def round_eval)
  show ?thesis
    by (simp only: floored_fmod_def d m s and_then_simps)
qed

lemma floored_fmod_width: "floored_fmod 524288 524288 = Inr 0"
proof -
  have d: "float_div 524288 524288 = Inr 1"
    by (simp add: float_div_def round_eval)
  have m: "float_mul 524288 (floorf 1) = Inr 524288"
    by (simp add: float_mul_def floorf_def round_eval)
  have s: "float_sub 524288 524288 = Inr 0"
    by (simp add: float_sub_def round_eval)
  show ?thesis
    by (simp only: floored_fmod_def d m s and_then_simps)
qed

lemma int_of_float_524288: "int_of_float 524288 = Inr 524288"
  by (simp add: int_of_float_def in_int_range_def truncate_def INT_MIN_def INT_MAX_def)

text \<open>
  C2. The claim: repeat-mode nearest sampling indexes the texel by the floored modulo
  of the coordinate, which is never negative, and the wrap is seamless: for every
  positive width the sample at \<open>u = -0.01\<close> is the sample at \<open>u = width - 0.01\<close>. At
  \<open>width = 524288\<close> the float nearest to \<open>-0.01\<close> wraps to \<open>524288.0f\<close>, the extent
  itself: the index is \<open>width\<close>, not \<open>width - 1\<close>, and the in-range assertion fails (the
  defect of C10). And \<open>width - 0.01\<close> is not a float there: the nearest float is the
  width, which wraps to column 0.
\<close>

theorem nearest_wrap_seam_breaks:
  "round_binary32 (- (1 / 100)) = Inr (- (5368709 / 536870912)) \<and>
   round_binary32 (524288 - 1 / 100) = Inr 524288 \<and>
   interpolate_nearest_wrap_byte m (Ptr 0 0) output 524288 1 (- (5368709 / 536870912)) 0 =
     Inl Assertion_Failed \<and>
   interpolate_nearest_wrap_byte m (Ptr 0 0) output 524288 1 524288 0 =
     copy4 m output (texel_ptr (Ptr 0 0) 524288 4 0 0) \<and>
   interpolate_nearest_wrap_fl f (Ptr 0 0) output 524288 1 components
     (- (5368709 / 536870912)) 0 = Inl Assertion_Failed \<and>
   interpolate_nearest_wrap_fl f (Ptr 0 0) output 524288 1 components 524288 0 =
     copy_components f output (texel_ptr (Ptr 0 0) 524288 components 0 0) 0 components"
proof -
  have "round_binary32 (- (1 / 100)) = Inr (- (5368709 / 536870912))"
    "round_binary32 (524288 - 1 / 100) = Inr 524288"
    by (simp_all add: round_eval)
  then show ?thesis
    by (simp add: interpolate_nearest_wrap_byte_def interpolate_nearest_wrap_fl_def
        float_of_int_1 float_of_int_524288 floored_fmod_0_1 floored_fmod_minus_hundredth
        floored_fmod_width int_of_float_0 int_of_float_524288 texel_ptr_def)
qed

text \<open>
  One more value of the helper, where the quotient itself rounds:
  \<^verbatim>\<open>floored_fmod(1e10f, 3.0f)\<close> is 0, while the exact remainder is 1.
\<close>

lemma floored_fmod_large: "floored_fmod 10000000000 3 = Inr 0"
proof -
  have d: "float_div 10000000000 3 = Inr 3333333248"
    by (simp add: float_div_def round_eval)
  have m: "float_mul 3 (floorf 3333333248) = Inr 10000000000"
    by (simp add: float_mul_def floorf_def round_eval)
  have s: "float_sub 10000000000 10000000000 = Inr 0"
    by (simp add: float_sub_def round_eval)
  show ?thesis
    by (simp only: floored_fmod_def d m s and_then_simps)
qed

section \<open>Flat images and the border scenario\<close>

lemma in_int_range_inside:
  assumes "0 \<le> u" "u < of_int w" "w \<le> INT_MAX"
  shows "in_int_range u" and "truncate u = \<lfloor>u\<rfloor>" and "0 \<le> \<lfloor>u\<rfloor>" and "\<lfloor>u\<rfloor> < w"
proof -
  show t: "truncate u = \<lfloor>u\<rfloor>" using assms(1) by (simp add: truncate_def)
  show f: "0 \<le> \<lfloor>u\<rfloor>" using assms(1) by simp
  show l: "\<lfloor>u\<rfloor> < w" using assms(2) by (simp add: floor_less_iff)
  have "INT_MIN \<le> 0" by (simp add: INT_MIN_def)
  with f l assms(3) have "INT_MIN \<le> \<lfloor>u\<rfloor> \<and> \<lfloor>u\<rfloor> \<le> INT_MAX" by linarith
  then show "in_int_range u" by (simp only: in_int_range_def t)
qed

lemma nearest_border_byte_uchar4_inside:
  assumes "allocated m buffer" "in_int_range u" "in_int_range v"
    and "0 \<le> truncate u" "truncate u < w" "0 \<le> truncate v" "truncate v < h"
  shows "interpolate_nearest_border_byte_uchar4 m buffer w h u v =
         read4 m (texel_ptr buffer w 4 (truncate u) (truncate v))"
  using assms allocated_not_Null [OF assms(1)]
  by (simp add: interpolate_nearest_border_byte_uchar4_def interpolate_nearest_border_byte_def
      alloca_def int_of_float_def copy4_eq local_read4_texel texel_ptr_def)

lemma nearest_border_fl_float4_inside:
  assumes "allocated m buffer" "in_int_range u" "in_int_range v"
    and "0 \<le> truncate u" "truncate u < w" "0 \<le> truncate v" "truncate v < h"
  shows "interpolate_nearest_border_fl_float4 m buffer w h u v =
         read4 m (texel_ptr buffer w 4 (truncate u) (truncate v))"
  using assms allocated_not_Null [OF assms(1)]
  by (simp add: interpolate_nearest_border_fl_float4_def interpolate_nearest_border_fl_def
      alloca_def int_of_float_def local_read4_texel texel_ptr_def)

text \<open>
  On an image whose texels all hold the same four channels \<open>V\<close>, the nearest samplers
  of either format return \<open>V\<close> at every coordinate inside the image, under the
  clamp and the border policy. (The bilinear, cubic and EWA filters are declared in
  the header without their bodies.)
\<close>

lemma nearest_byte_flat_field:
  assumes n: "mode \<noteq> Repeat" and a: "allocated m buffer"
    and w: "1 \<le> w" "w \<le> INT_MAX" and h: "1 \<le> h" "h \<le> INT_MAX"
    and u: "0 \<le> u" "u < of_int w" and v: "0 \<le> v" "v < of_int h"
    and flat: "\<And>x y. 0 \<le> x \<Longrightarrow> x < w \<Longrightarrow> 0 \<le> y \<Longrightarrow> y < h \<Longrightarrow>
                 read4 m (texel_ptr buffer w 4 x y) = Inr V"
  shows "nearest_byte_uchar4 mode m buffer w h u v = Inr V"
proof -
  note iu = in_int_range_inside [OF u w(2)] and iv = in_int_range_inside [OF v h(2)]
  show ?thesis
  proof (cases mode)
    case Extend
    have "clamp \<lfloor>u\<rfloor> 0 (w - 1) = \<lfloor>u\<rfloor>" "clamp \<lfloor>v\<rfloor> 0 (h - 1) = \<lfloor>v\<rfloor>"
      using iu(3,4) iv(3,4) by (simp_all add: clamp_def)
    then show ?thesis
      using nearest_byte_uchar4_eq [OF a w(1) h(1) iu(1) iv(1)] flat [OF iu(3,4) iv(3,4)]
      by (simp add: Extend nearest_byte_uchar4_def)
  next
    case Repeat
    with n show ?thesis by simp
  next
    case Border
    from flat [OF iu(3,4) iv(3,4)] show ?thesis
      using nearest_border_byte_uchar4_inside [OF a iu(1) iv(1), of w h] iu iv
      by (simp add: Border nearest_byte_uchar4_def)
  qed
qed

lemma nearest_fl_flat_field:
  assumes n: "mode \<noteq> Repeat" and a: "allocated m buffer"
    and w: "1 \<le> w" "w \<le> INT_MAX" and h: "1 \<le> h" "h \<le> INT_MAX"
    and u: "0 \<le> u" "u < of_int w" and v: "0 \<le> v" "v < of_int h"
    and flat: "\<And>x y. 0 \<le> x \<Longrightarrow> x < w \<Longrightarrow> 0 \<le> y \<Longrightarrow> y < h \<Longrightarrow>
                 read4 m (texel_ptr buffer w 4 x y) = Inr V"
  shows "nearest_fl_float4 mode m buffer w h u v = Inr V"
proof -
  note iu = in_int_range_inside [OF u w(2)] and iv = in_int_range_inside [OF v h(2)]
  show ?thesis
  proof (cases mode)
    case Extend
    have "clamp \<lfloor>u\<rfloor> 0 (w - 1) = \<lfloor>u\<rfloor>" "clamp \<lfloor>v\<rfloor> 0 (h - 1) = \<lfloor>v\<rfloor>"
      using iu(3,4) iv(3,4) by (simp_all add: clamp_def)
    then show ?thesis
      using nearest_fl_float4_eq [OF a w(1) h(1) iu(1) iv(1)] flat [OF iu(3,4) iv(3,4)]
      by (simp add: Extend nearest_fl_float4_def)
  next
    case Repeat
    with n show ?thesis by simp
  next
    case Border
    from flat [OF iu(3,4) iv(3,4)] show ?thesis
      using nearest_border_fl_float4_inside [OF a iu(1) iv(1), of w h] iu iv
      by (simp add: Border nearest_fl_float4_def)
  qed
qed

text \<open>
  The spec's border scenario: outside the image, at \<open>u = v = 5\<close> on a 4x4 image, the
  border samplers return (0, 0, 0, 0), whatever the memory holds.
\<close>

lemma in_int_range_5 [simp]: "in_int_range 5"
  by (simp add: in_int_range_def truncate_def INT_MIN_def INT_MAX_def)

lemma truncate_5 [simp]: "truncate 5 = 5"
  by (simp add: truncate_def)

lemma nearest_border_at_5_5:
  assumes "buffer \<noteq> Null"
  shows "interpolate_nearest_border_byte_uchar4 m buffer 4 4 5 5 = Inr (Vec4 0 0 0 0)"
    and "interpolate_nearest_border_fl_float4 f buffer 4 4 5 5 = Inr (Vec4 0 0 0 0)"
  using assms
  by (simp_all add: interpolate_nearest_border_byte_uchar4_def
      interpolate_nearest_border_fl_float4_def alloca_def nearest_border_byte_outside
      nearest_border_fl_outside zero4_read4 zero_components_read4 writable_alloca)

end
